theory Spec2Isabelle
  imports Complex_Main
begin

section \<open>Word-level audio censorship (app.py)\<close>

text \<open>
  The development embeds \<^verbatim>\<open>is_toxic\<close> and \<^verbatim>\<open>censor_audio\<close> of \<^verbatim>\<open>app.py\<close>.
  Both read two module globals, \<^verbatim>\<open>toxicity_classifier\<close> and \<^verbatim>\<open>beep\<close>, which are
  either set at start-up or \<^verbatim>\<open>None\<close>; here they are explicit arguments.
\<close>

subsection \<open>Library values the functions work on\<close>

text \<open>
  Modelled from the spec: AudioClip, "an ordered sequence of sample frames ... supports
  slicing by millisecond offset and concatenation". The source uses the library type
  \<^verbatim>\<open>pydub.AudioSegment\<close>, which is not part of the repository. A clip is a list with one
  element per millisecond of audio, so \<^verbatim>\<open>len(audio)\<close> is the length of the list,
  \<^verbatim>\<open>a + b\<close> is append and \<^verbatim>\<open>AudioSegment.silent(duration=0)\<close> is the empty list. Sample
  rate, channel layout and sub-millisecond frame rounding are not represented.
\<close>

type_synonym 'a clip = "'a list"

text \<open>Python's \<^verbatim>\<open>data[s:e]\<close> on a sequence: a negative index counts from the end, and
  both indices are clamped to the sequence.\<close>

definition py_slice :: "'a list \<Rightarrow> int \<Rightarrow> int \<Rightarrow> 'a list" where
  "py_slice xs s e =
     (let n = int (length xs);
          s1 = (if s < 0 then max (s + n) 0 else min s n);
          e1 = (if e < 0 then max (e + n) 0 else min e n)
      in take (nat (e1 - s1)) (drop (nat s1) xs))"

text \<open>The library's \<^verbatim>\<open>_parse_position\<close>: a negative position is taken from the end.\<close>

definition parse_position :: "'a clip \<Rightarrow> int \<Rightarrow> int" where
  "parse_position audio val = (if val < 0 then int (length audio) - \<bar>val\<bar> else val)"

text \<open>\<^verbatim>\<open>audio[start:stop]\<close>: both bounds are first cut down to \<^verbatim>\<open>len(audio)\<close>, then
  parsed, then the frames are sliced. \<^verbatim>\<open>audio[start:]\<close> is \<open>getitem_slice audio start
  (len audio)\<close>, since the library puts \<^verbatim>\<open>len(self)\<close> for a missing stop.\<close>

definition getitem_slice :: "'a clip \<Rightarrow> int \<Rightarrow> int \<Rightarrow> 'a clip" where
  "getitem_slice audio start stop =
     (let start' = min start (int (length audio));
          stop' = min stop (int (length audio))
      in py_slice audio (parse_position audio start') (parse_position audio stop'))"

text \<open>Python's \<^verbatim>\<open>int(x)\<close> on a number truncates toward zero.\<close>

definition py_int :: "rat \<Rightarrow> int" where
  "py_int x = (if x < 0 then \<lceil>x\<rceil> else \<lfloor>x\<rfloor>)"

text \<open>
  Python's floats are IEEE 754 binary64 numbers: rationals with a significand of 53 bits.
  A float is the rational it denotes, and every operation rounds its exact result to the
  nearest float, ties to the even significand. \<open>bit_length\<close> is \<^verbatim>\<open>int.bit_length\<close>;
  \<open>binary_exponent x\<close> is the \<open>e\<close> with \<open>2^e \<le> x < 2^(e+1)\<close> for a positive \<open>x\<close>.
  Numbers are taken within the range of the normal floats: overflow to infinity and
  subnormal numbers are not represented.
\<close>

fun bit_length :: "nat \<Rightarrow> nat" where
  "bit_length n = (if n = 0 then 0 else Suc (bit_length (n div 2)))"

definition pow2 :: "int \<Rightarrow> rat" where
  "pow2 e = (if 0 \<le> e then 2 ^ nat e else 1 / 2 ^ nat (- e))"

definition binary_exponent :: "rat \<Rightarrow> int" where
  "binary_exponent x =
     (if 1 \<le> x then int (bit_length (nat \<lfloor>x\<rfloor>)) - 1
      else (let k = int (bit_length (nat \<lfloor>1 / x\<rfloor>)) - 1
            in if x = pow2 (- k) then - k else - (k + 1)))"

definition round_half_even :: "rat \<Rightarrow> int" where
  "round_half_even m =
     (let r = \<lfloor>m\<rfloor>; fr = m - of_int r
      in if 1 / 2 < fr \<or> (fr = 1 / 2 \<and> odd r) then r + 1 else r)"

text \<open>The float nearest to a rational: what a number written in decimal denotes as a
  float, and what an integer becomes when it is converted. A float is left as it is.\<close>

definition round_double :: "rat \<Rightarrow> rat" where
  "round_double x =
     (if x = 0 then 0
      else (let ulp = pow2 (binary_exponent \<bar>x\<bar> - 52)
            in sgn x * of_int (round_half_even (\<bar>x\<bar> / ulp)) * ulp))"

text \<open>\<^verbatim>\<open>a * b\<close> with a float operand: both operands as floats, the product rounded.\<close>

definition float_mul :: "rat \<Rightarrow> rat \<Rightarrow> rat" where
  "float_mul a b = round_double (round_double a * round_double b)"

text \<open>\<^verbatim>\<open>a / b\<close> on two integers (true division) with \<open>b\<close> not zero: the exact quotient,
  rounded once.\<close>

definition true_div :: "nat \<Rightarrow> nat \<Rightarrow> rat" where
  "true_div a b = round_double (of_nat a / of_nat b)"

text \<open>Python's \<^verbatim>\<open>str.isspace\<close> on the ASCII range (tab, line feed, vertical tab, form
  feed, carriage return, the four separators 0x1C to 0x1F and the space); strings are
  ASCII text here.\<close>

definition isspace :: "char \<Rightarrow> bool" where
  "isspace c = (c \<in> {CHR 0x09, CHR 0x0A, CHR 0x0B, CHR 0x0C, CHR 0x0D,
                       CHR 0x1C, CHR 0x1D, CHR 0x1E, CHR 0x1F, CHR 0x20})"

text \<open>\<^verbatim>\<open>word.strip()\<close>\<close>

definition strip :: "string \<Rightarrow> string" where
  "strip w = rev (dropWhile isspace (rev (dropWhile isspace w)))"

text \<open>\<^verbatim>\<open>text.split()\<close>: the maximal runs of non-whitespace characters, in order.
  \<open>split_acc cur\<close> carries the word being read.\<close>

fun split_acc :: "string \<Rightarrow> string \<Rightarrow> string list" where
  "split_acc cur [] = (if cur = [] then [] else [cur])"
| "split_acc cur (c # cs) =
     (if isspace c then (if cur = [] then split_acc [] cs else cur # split_acc [] cs)
      else split_acc (cur @ [c]) cs)"

definition str_split :: "string \<Rightarrow> string list" where
  "str_split s = split_acc [] s"

subsection \<open>The toxicity classifier and \<^verbatim>\<open>is_toxic\<close>\<close>

text \<open>
  Modelled from the spec: the toxicity classifier, "given a word string, returns a label
  and confidence score, or is unavailable". It is the \<^verbatim>\<open>transformers\<close> pipeline, an
  external service: a call either raises or returns a list of predictions, the top one
  first, and may change the service's own state \<open>'s\<close>. The score is a float in the
  source and a rational here; for a float score, \<^verbatim>\<open>score > 0.7\<close> holds exactly when the
  score is above the rational 7/10, because the float written \<^verbatim>\<open>0.7\<close> is the largest
  float below 7/10.
\<close>

record prediction =
  label :: string
  score :: rat

datatype clf_out = Raises | Returns "prediction list"

type_synonym 's classifier = "string \<Rightarrow> 's \<Rightarrow> clf_out \<times> 's"

text \<open>
  \<^verbatim>\<open>
  def is_toxic(word):
      if not word.strip() or not toxicity_classifier:
          return False
      try:
          result = toxicity_classifier(word)[0]
          return result["label"] == "Toxic" and result["score"] > 0.7
      except:
          return False
  \<close>
  Indexing an empty result list raises \<^verbatim>\<open>IndexError\<close>, which the bare \<^verbatim>\<open>except\<close>
  swallows like any exception of the call itself.
\<close>

definition is_toxic :: "'s classifier option \<Rightarrow> string \<Rightarrow> 's \<Rightarrow> bool \<times> 's" where
  "is_toxic toxicity_classifier w s =
     (if strip w = [] then (False, s)
      else case toxicity_classifier of
        None \<Rightarrow> (False, s)
      | Some f \<Rightarrow>
          (case f w s of
            (Raises, s') \<Rightarrow> (False, s')
          | (Returns [], s') \<Rightarrow> (False, s')
          | (Returns (result # _), s') \<Rightarrow>
              (label result = ''Toxic'' \<and> 7 / 10 < score result, s')))"

subsection \<open>\<^verbatim>\<open>censor_audio\<close>\<close>

text \<open>An entry of the word-timings list: a dictionary with the keys \<^verbatim>\<open>word\<close>,
  \<^verbatim>\<open>start_time\<close> and \<^verbatim>\<open>end_time\<close> (seconds). A time is a float, given by the number
  it denotes or by a decimal number that denotes the nearest float.\<close>

record word_info =
  word :: string
  start_time :: rat
  end_time :: rat

text \<open>\<^verbatim>\<open>words_info\<close> is tested with \<^verbatim>\<open>isinstance\<close>: a list, a string, or anything
  else (\<^verbatim>\<open>load_and_transcribe_audio\<close> can hand on the raw recogniser result).\<close>

datatype transcription = WordTimings "word_info list" | PlainText string | Other

datatype py_error = ZeroDivisionError

text \<open>\<^verbatim>\<open>int(word['start_time'] * 1000)\<close> and \<^verbatim>\<open>int(word['end_time'] * 1000)\<close>: the times
  are floats, the products are float products.\<close>

definition start_ms :: "word_info \<Rightarrow> int" where
  "start_ms w = py_int (float_mul (start_time w) 1000)"

definition end_ms :: "word_info \<Rightarrow> int" where
  "end_ms w = py_int (float_mul (end_time w) 1000)"

text \<open>
  The loop over the word timings; the loop state is \<open>(censored, last_end)\<close> and the
  classifier's state.
  \<^verbatim>\<open>
  for word in words_info:
      start = int(word['start_time'] * 1000)
      end = int(word['end_time'] * 1000)
      if last_end < start:
          censored += audio[last_end:start]
      censored += beep if is_toxic(word['word']) else audio[start:end]
      last_end = end
  \<close>
\<close>

fun timings_loop ::
  "'a clip \<Rightarrow> 'a clip \<Rightarrow> 's classifier option \<Rightarrow> word_info list \<Rightarrow>
   'a clip \<times> int \<times> 's \<Rightarrow> 'a clip \<times> int \<times> 's" where
  "timings_loop audio beep clf [] st = st"
| "timings_loop audio beep clf (w # ws) (censored, last_end, s) =
     (let start = start_ms w;
          en = end_ms w;
          censored1 = (if last_end < start then censored @ getitem_slice audio last_end start
                       else censored);
          (tox, s') = is_toxic clf (word w) s;
          censored2 = censored1 @ (if tox then beep else getitem_slice audio start en)
      in timings_loop audio beep clf ws (censored2, en, s'))"

text \<open>
  The loop over the words of a plain text, run on \<open>enumerate 0 words\<close>. \<open>duration\<close> is a
  float, so both products are float products.
  \<^verbatim>\<open>
  for i, word in enumerate(words):
      start = int(i * duration)
      end = int((i + 1) * duration)
      censored += beep if is_toxic(word) else audio[start:end]
  \<close>
\<close>

fun text_loop ::
  "'a clip \<Rightarrow> 'a clip \<Rightarrow> 's classifier option \<Rightarrow> rat \<Rightarrow> (nat \<times> string) list \<Rightarrow>
   'a clip \<times> 's \<Rightarrow> 'a clip \<times> 's" where
  "text_loop audio beep clf duration [] st = st"
| "text_loop audio beep clf duration ((i, w) # rest) (censored, s) =
     (let start = py_int (float_mul (of_nat i) duration);
          en = py_int (float_mul (of_nat (i + 1)) duration);
          (tox, s') = is_toxic clf w s
      in text_loop audio beep clf duration rest
           (censored @ (if tox then beep else getitem_slice audio start en), s'))"

text \<open>
  \<^verbatim>\<open>censor_audio(words_info, audio)\<close>. The result is the exception raised (\<open>Inl\<close>) or the
  value returned (\<open>Inr\<close>: \<open>None\<close>, or the censored clip), with the classifier's state
  afterwards. \<^verbatim>\<open>not beep\<close> is true for \<^verbatim>\<open>None\<close> and, since a segment's truth value is its
  length, for a tone of zero length. \<^verbatim>\<open>len(audio) / len(words)\<close> raises
  \<^verbatim>\<open>ZeroDivisionError\<close> when there are no words, and is a float division otherwise.
\<close>

definition censor_audio ::
  "'a clip option \<Rightarrow> 's classifier option \<Rightarrow> transcription \<Rightarrow> 'a clip \<Rightarrow> 's \<Rightarrow>
   (py_error + 'a clip option) \<times> 's" where
  "censor_audio beep clf words_info audio s =
     (case beep of
        None \<Rightarrow> (Inr None, s)
      | Some b \<Rightarrow>
          if b = [] then (Inr None, s)
          else
            (case words_info of
               WordTimings ws \<Rightarrow>
                 (let (censored, last_end, s') = timings_loop audio b clf ws ([], 0, s)
                  in (Inr (Some (if last_end < int (length audio)
                                 then censored @ getitem_slice audio last_end (int (length audio))
                                 else censored)), s'))
             | PlainText text \<Rightarrow>
                 (let words = str_split text
                  in if length words = 0 then (Inl ZeroDivisionError, s)
                     else
                       (let duration = true_div (length audio) (length words);
                            (censored, s') = text_loop audio b clf duration (enumerate 0 words) ([], s)
                        in (Inr (Some censored), s')))
             | Other \<Rightarrow> (Inr (Some []), s)))"

section \<open>The specification's vocabulary\<close>

text \<open>The spec's slice \<open>[a, b)\<close> of a clip, for offsets in milliseconds: the elements
  at the positions from \<open>a\<close> up to, not including, \<open>b\<close>.\<close>

definition span :: "'a clip \<Rightarrow> int \<Rightarrow> int \<Rightarrow> 'a clip" where
  "span audio a b = take (nat (b - a)) (drop (nat a) audio)"

text \<open>Word spans in timing order, monotone and non-overlapping: every span starts at or
  after the end of the one before it (the first at or after 0) and does not end before
  it starts.\<close>

fun monotone_spans :: "int \<Rightarrow> word_info list \<Rightarrow> bool" where
  "monotone_spans last_end [] = True"
| "monotone_spans last_end (w # ws) =
     (last_end \<le> start_ms w \<and> start_ms w \<le> end_ms w \<and> monotone_spans (end_ms w) ws)"

text \<open>The spec's algorithm for the WordTimings case, in its own words (section 4.1, steps
  2 and 3), over a toxicity predicate on words: the untouched gap \<open>[last_end, start)\<close>
  when \<open>start > last_end\<close>, then the tone or the word's own slice, and after the last
  word the trailing audio \<open>[last_end, len(audio))\<close>.\<close>

fun spec_word_timings ::
  "'a clip \<Rightarrow> 'a clip \<Rightarrow> (string \<Rightarrow> bool) \<Rightarrow> int \<Rightarrow> word_info list \<Rightarrow> 'a clip" where
  "spec_word_timings audio tone isToxic last_end [] = span audio last_end (int (length audio))"
| "spec_word_timings audio tone isToxic last_end (w # ws) =
     (if start_ms w > last_end then span audio last_end (start_ms w) else []) @
     (if isToxic (word w) then tone else span audio (start_ms w) (end_ms w)) @
     spec_word_timings audio tone isToxic (end_ms w) ws"

text \<open>The classifier decides toxicity as the predicate \<open>isToxic\<close> does: whatever state
  the service is in, \<^verbatim>\<open>is_toxic(word)\<close> returns \<open>isToxic word\<close>.\<close>

definition toxic_pred :: "'s classifier option \<Rightarrow> (string \<Rightarrow> bool) \<Rightarrow> bool" where
  "toxic_pred clf isToxic = (\<forall>w s. fst (is_toxic clf w s) = isToxic w)"


text \<open>A deterministic toxicity predicate: what \<^verbatim>\<open>is_toxic(word)\<close> returns does not depend
  on the state of the classifier service. The reply of the service itself (its scores,
  or whether it raises) may vary with the state.\<close>

definition deterministic_predicate :: "'s classifier option \<Rightarrow> bool" where
  "deterministic_predicate clf =
     (\<forall>w s s'. fst (is_toxic clf w s) = fst (is_toxic clf w s'))"

subsection \<open>Concrete inputs\<close>

text \<open>A classifier that finds exactly the word \<^verbatim>\<open>bad\<close> toxic; its state counts the
  calls made to it.\<close>

definition ex_clf :: "nat classifier" where
  "ex_clf w calls =
     (if w = ''bad'' then Returns [\<lparr>label = ''Toxic'', score = 9 / 10\<rparr>]
      else Returns [\<lparr>label = ''Not Toxic'', score = 19 / 20\<rparr>], Suc calls)"

text \<open>A classifier whose replies vary with its state, the call count: the score of
  \<^verbatim>\<open>bad\<close> alternates between 0.9 and 0.8, and every third call on another word raises.\<close>

definition jitter_clf :: "nat classifier" where
  "jitter_clf w calls =
     (if w = ''bad''
      then Returns [\<lparr>label = ''Toxic'', score = (if even calls then 9 / 10 else 8 / 10)\<rparr>]
      else if calls mod 3 = 0 then Raises
      else Returns [\<lparr>label = ''Not Toxic'', score = 19 / 20\<rparr>], Suc calls)"

text \<open>A classifier that raises on every call.\<close>

definition raising_clf :: "nat classifier" where
  "raising_clf w calls = (Raises, Suc calls)"

text \<open>The spec's example: \<^verbatim>\<open>bad\<close>, \<^verbatim>\<open>cat\<close>, \<^verbatim>\<open>run\<close> at [0,1000), [1000,2000),
  [2000,3000) milliseconds.\<close>

definition ex_words :: "word_info list" where
  "ex_words = [\<lparr>word = ''bad'', start_time = 0, end_time = 1\<rparr>,
               \<lparr>word = ''cat'', start_time = 1, end_time = 2\<rparr>,
               \<lparr>word = ''run'', start_time = 2, end_time = 3\<rparr>]"

text \<open>Two words, both \<^verbatim>\<open>bad\<close>, at [1,2) and [4,5) milliseconds: a gap before each word
  and audio after the last.\<close>

definition gap_words :: "word_info list" where
  "gap_words = [\<lparr>word = ''bad'', start_time = 1 / 1000, end_time = 2 / 1000\<rparr>,
                \<lparr>word = ''bad'', start_time = 4 / 1000, end_time = 5 / 1000\<rparr>]"


section \<open>Properties\<close>

subsection \<open>Float arithmetic\<close>

lemma floor_rat_numeral:
  "\<lfloor>numeral a / numeral b :: rat\<rfloor> = numeral a div numeral b"
  "\<lfloor>1 / numeral b :: rat\<rfloor> = 1 div numeral b"
  by (metis floor_divide_of_int_eq of_int_numeral,
      metis floor_divide_of_int_eq of_int_numeral of_int_1)

lemmas float_eval = float_mul_def true_div_def round_double_def binary_exponent_def pow2_def
  round_half_even_def py_int_def Let_def floor_rat_numeral





subsection \<open>Slices at non-negative offsets\<close>

lemma py_slice_in_range:
  "0 \<le> s \<Longrightarrow> s \<le> int (length xs) \<Longrightarrow> 0 \<le> e \<Longrightarrow> e \<le> int (length xs) \<Longrightarrow>
   py_slice xs s e = take (nat (e - s)) (drop (nat s) xs)"
  by (simp add: py_slice_def Let_def)

lemma getitem_slice_span:
  assumes "0 \<le> a" and "0 \<le> b"
  shows "getitem_slice audio a b = span audio a b"
proof -
  let ?n = "int (length audio)"
  have "getitem_slice audio a b =
        take (nat (min b ?n - min a ?n)) (drop (nat (min a ?n)) audio)"
    using assms by (simp add: getitem_slice_def parse_position_def Let_def py_slice_in_range)
  also have "\<dots> = take (nat (b - a)) (drop (nat a) audio)"
  proof (cases "a < ?n")
    case False
    then show ?thesis by simp
  next
    case True
    show ?thesis
    proof (cases "b \<le> ?n")
      case True
      with \<open>a < ?n\<close> show ?thesis by simp
    next
      case False
      with True assms have "length (drop (nat a) audio) \<le> nat (b - a)"
        and "length (drop (nat a) audio) \<le> nat (?n - a)"
        by simp_all
      with True False show ?thesis by (simp add: min_def)
    qed
  qed
  finally show ?thesis by (simp add: span_def)
qed


lemma span_rest:
  "0 \<le> a \<Longrightarrow> a \<le> b \<Longrightarrow> span audio a b @ drop (nat b) audio = drop (nat a) audio"
proof -
  assume h: "0 \<le> a" "a \<le> b"
  have "nat (b - a) + nat a = nat b" using h by linarith
  then have "drop (nat (b - a)) (drop (nat a) audio) = drop (nat b) audio"
    by simp
  moreover have "take (nat (b - a)) (drop (nat a) audio) @ drop (nat (b - a)) (drop (nat a) audio)
      = drop (nat a) audio"
    by (rule append_take_drop_id)
  ultimately show ?thesis by (simp only: span_def)
qed

lemma span_to_end: "0 \<le> a \<Longrightarrow> span audio a (int (length audio)) = drop (nat a) audio"
  by (simp add: span_def)

lemma spec_word_timings_none_toxic:
  "monotone_spans last_end ws \<Longrightarrow> 0 \<le> last_end \<Longrightarrow> \<forall>w\<in>set ws. \<not> isToxic (word w) \<Longrightarrow>
   spec_word_timings audio b isToxic last_end ws = drop (nat last_end) audio"
proof (induction ws arbitrary: last_end)
  case Nil
  then show ?case by (simp add: span_to_end)
next
  case (Cons w ws)
  then have m: "last_end \<le> start_ms w" "start_ms w \<le> end_ms w" "monotone_spans (end_ms w) ws"
    and nn: "0 \<le> start_ms w" "0 \<le> end_ms w"
    by auto
  have ih: "spec_word_timings audio b isToxic (end_ms w) ws = drop (nat (end_ms w)) audio"
    using Cons.IH [OF m(3) nn(2)] Cons.prems(3) by simp
  have gap: "(if last_end < start_ms w then span audio last_end (start_ms w) else []) = span audio last_end (start_ms w)"
    using m(1) by (auto simp: span_def)
  show ?case
    using Cons.prems(3)
    by (simp add: ih gap span_rest [OF nn(1) m(2)] span_rest [OF Cons.prems(2) m(1)])
qed

subsection \<open>The word-timings loop\<close>

lemma timings_loop_spec:
  assumes "toxic_pred clf isToxic"
  shows "monotone_spans last_end ws \<Longrightarrow> 0 \<le> last_end \<Longrightarrow>
    (case timings_loop audio b clf ws (censored, last_end, s) of
       (c, le, s') \<Rightarrow> 0 \<le> le \<and>
          c @ span audio le (int (length audio)) = censored @ spec_word_timings audio b isToxic last_end ws)"
proof (induction ws arbitrary: censored last_end s)
  case Nil
  then show ?case by simp
next
  case (Cons w ws)
  from Cons.prems have m: "last_end \<le> start_ms w" "start_ms w \<le> end_ms w" "monotone_spans (end_ms w) ws"
    by simp_all
  with Cons.prems have nn: "0 \<le> start_ms w" "0 \<le> end_ms w" by linarith+
  have tox: "fst (is_toxic clf (word w) s) = isToxic (word w)"
    using assms by (simp add: toxic_pred_def)
  show ?case
    using Cons.IH [OF m(3) nn(2)] Cons.prems(2) nn tox
    by (simp add: Let_def split_beta getitem_slice_span)
qed

lemma censor_audio_timings_spec:
  assumes "toxic_pred clf isToxic" "monotone_spans 0 ws" "b \<noteq> []"
  shows "fst (censor_audio (Some b) clf (WordTimings ws) audio s) =
         Inr (Some (spec_word_timings audio b isToxic 0 ws))"
proof -
  obtain c le s' where r: "timings_loop audio b clf ws ([], 0, s) = (c, le, s')"
    by (cases "timings_loop audio b clf ws ([], 0, s)") auto
  from timings_loop_spec [OF assms(1) assms(2), where audio = audio and b = b and censored = "[]" and s = s] r
  have le: "0 \<le> le" and eq: "c @ span audio le (int (length audio)) = spec_word_timings audio b isToxic 0 ws"
    by simp_all
  have "(if le < int (length audio) then c @ getitem_slice audio le (int (length audio)) else c)
        = c @ span audio le (int (length audio))"
    using le by (simp add: getitem_slice_span) (simp add: span_def)
  with eq r assms(3) show ?thesis
    by (simp add: censor_audio_def)
qed

lemma toxic_pred_ex_clf: "toxic_pred (Some ex_clf) (\<lambda>w. w = ''bad'')"
  by (auto simp: toxic_pred_def is_toxic_def ex_clf_def strip_def isspace_def)

lemma toxic_pred_raising:
  assumes "\<forall>w s. fst (f w s) = Raises"
  shows "toxic_pred (Some f) (\<lambda>w. False)"
proof -
  have "\<not> fst (is_toxic (Some f) w s)" for w s
  proof (cases "f w s")
    case (Pair r s')
    with assms [rule_format, of w s] show ?thesis
      by (simp add: is_toxic_def)
  qed
  then show ?thesis by (simp add: toxic_pred_def)
qed

lemma ms_whole_seconds:
  "py_int (float_mul 0 1000) = 0" "py_int (float_mul 1 1000) = 1000"
  "py_int (float_mul 2 1000) = 2000" "py_int (float_mul 3 1000) = 3000"
  by (simp_all add: float_eval)

lemma monotone_ex_words: "monotone_spans 0 ex_words"
  by (simp add: ex_words_def start_ms_def end_ms_def ms_whole_seconds)

lemma ms_gap_words:
  "py_int (float_mul (1 / 1000) 1000) = 1" "py_int (float_mul (1 / 500) 1000) = 2"
  "py_int (float_mul (1 / 250) 1000) = 4" "py_int (float_mul (1 / 200) 1000) = 5"
  by (simp_all add: float_eval)

lemma monotone_gap_words: "monotone_spans 0 gap_words"
  by (simp add: gap_words_def start_ms_def end_ms_def ms_gap_words)

text \<open>C1: for word timings in timing order with monotone non-overlapping spans,
  \<^verbatim>\<open>censor_audio\<close> builds what the spec's algorithm builds: for each word the untouched gap
  \<open>[last_end, start)\<close> when \<open>start > last_end\<close>, then the tone if the word is toxic and the
  slice \<open>[start, end)\<close> otherwise, and after the loop the trailing audio. For a clip of
  3000 ms with \<^verbatim>\<open>bad\<close>, \<^verbatim>\<open>cat\<close>, \<^verbatim>\<open>run\<close> at [0,1000), [1000,2000), [2000,3000) and only
  \<^verbatim>\<open>bad\<close> toxic, the output is the tone, then \<open>audio[1000:2000]\<close>, then
  \<open>audio[2000:3000]\<close>.\<close>

theorem censor_audio_word_timings:
  assumes "toxic_pred clf isToxic" and "monotone_spans 0 ws" and "b \<noteq> []"
  shows "fst (censor_audio (Some b) clf (WordTimings ws) audio s) =
           Inr (Some (spec_word_timings audio b isToxic 0 ws)) \<and>
         (length audio = 3000 \<and> isToxic ''bad'' \<and> \<not> isToxic ''cat'' \<and> \<not> isToxic ''run'' \<longrightarrow>
          fst (censor_audio (Some b) clf (WordTimings ex_words) audio s) =
            Inr (Some (b @ span audio 1000 2000 @ span audio 2000 3000)))"
proof
  show "fst (censor_audio (Some b) clf (WordTimings ws) audio s) =
           Inr (Some (spec_word_timings audio b isToxic 0 ws))"
    using assms by (rule censor_audio_timings_spec)
next
  show "length audio = 3000 \<and> isToxic ''bad'' \<and> \<not> isToxic ''cat'' \<and> \<not> isToxic ''run'' \<longrightarrow>
          fst (censor_audio (Some b) clf (WordTimings ex_words) audio s) =
            Inr (Some (b @ span audio 1000 2000 @ span audio 2000 3000))"
    using censor_audio_timings_spec [OF assms(1) monotone_ex_words assms(3), of audio s]
    by (simp add: ex_words_def start_ms_def end_ms_def ms_whole_seconds span_def)
qed

text \<open>The example on a concrete clip: 3000 samples numbered from 0, a tone of 100
  samples, and a classifier that finds only \<^verbatim>\<open>bad\<close> toxic.\<close>

theorem censor_audio_word_timings_witness:
  "toxic_pred (Some ex_clf) (\<lambda>w. w = ''bad'') \<and> monotone_spans 0 ex_words \<and>
   fst (censor_audio (Some (replicate 100 (0::nat))) (Some ex_clf) (WordTimings ex_words) [0..<3000] 0) =
     Inr (Some (replicate 100 0 @ [1000..<2000] @ [2000..<3000]))"
proof -
  note t = toxic_pred_ex_clf
  note m = monotone_ex_words
  have b: "replicate 100 (0::nat) \<noteq> []" by simp
  from censor_audio_word_timings [OF t m b, of "[0..<3000]" 0, THEN conjunct2] t m show ?thesis
    by (simp add: span_def del: upt_rec_numeral)
qed

lemma spec_word_timings_all_toxic:
  "monotone_spans last_end ws \<Longrightarrow> \<forall>w\<in>set ws. isToxic (word w) \<Longrightarrow>
   spec_word_timings audio b isToxic last_end ws =
     concat (map (\<lambda>(le, w). span audio le (start_ms w) @ b) (zip (last_end # map end_ms ws) ws)) @
     span audio (last (last_end # map end_ms ws)) (int (length audio))"
proof (induction ws arbitrary: last_end)
  case Nil
  show ?case by simp
next
  case (Cons w ws)
  then have m: "last_end \<le> start_ms w" "monotone_spans (end_ms w) ws"
    by auto
  have gap: "(if last_end < start_ms w then span audio last_end (start_ms w) else []) = span audio last_end (start_ms w)"
    using m(1) by (auto simp: span_def)
  show ?case
    using Cons.prems(2) Cons.IH [OF m(2)]
    by (simp add: gap)
qed

text \<open>C8: for word timings with monotone non-overlapping spans in which every word is
  toxic, the output is, for each word in order, the gap between the end of the word before
  it (0 for the first) and its start, taken from the input unchanged, followed by one tone;
  then the audio after the last word, unchanged. No slice of a word span is in the output.\<close>

theorem censor_audio_all_toxic:
  assumes "toxic_pred clf isToxic" and "monotone_spans 0 ws" and "b \<noteq> []"
    and "\<forall>w\<in>set ws. isToxic (word w)"
  shows "fst (censor_audio (Some b) clf (WordTimings ws) audio s) =
     Inr (Some (concat (map (\<lambda>(le, w). span audio le (start_ms w) @ b) (zip (0 # map end_ms ws) ws)) @
                span audio (last (0 # map end_ms ws)) (int (length audio))))"
  using censor_audio_timings_spec [OF assms(1,2,3), of audio s]
    spec_word_timings_all_toxic [OF assms(2,4), of audio b]
  by simp

text \<open>On a clip of 7 samples with two toxic words at [1,2) and [4,5): the gaps
  \<open>[0]\<close> and \<open>[2, 3]\<close> and the trailing \<open>[5, 6]\<close> are kept, each word is one tone.\<close>

theorem censor_audio_all_toxic_witness:
  "fst (censor_audio (Some [100, 101::nat]) (Some ex_clf) (WordTimings gap_words) [0..<7] 0) =
     Inr (Some ([0] @ [100, 101] @ [2, 3] @ [100, 101] @ [5, 6]))"
proof -
  have b: "[100, 101::nat] \<noteq> []" by simp
  have a: "\<forall>w\<in>set gap_words. (\<lambda>w. w = ''bad'') (word w)"
    by (simp add: gap_words_def)
  from censor_audio_all_toxic [OF toxic_pred_ex_clf monotone_gap_words b a, of "[0..<7]" 0]
  show ?thesis
    by (simp add: gap_words_def start_ms_def end_ms_def ms_gap_words span_def)
qed

lemma length_span_rest:
  assumes "0 \<le> a" and "a \<le> b"
  shows "length (span audio a b) + length (drop (nat b) audio) = length (drop (nat a) audio)"
proof -
  have "length (span audio a b @ drop (nat b) audio) = length (drop (nat a) audio)"
    by (simp only: span_rest [OF assms])
  then show ?thesis by simp
qed

lemma length_spec_word_timings:
  "monotone_spans last_end ws \<Longrightarrow> 0 \<le> last_end \<Longrightarrow>
   length (spec_word_timings audio b isToxic last_end ws) +
     (\<Sum>w\<leftarrow>filter (\<lambda>w. isToxic (word w)) ws. length (span audio (start_ms w) (end_ms w))) =
   length (drop (nat last_end) audio) + length b * length (filter (\<lambda>w. isToxic (word w)) ws)"
proof (induction ws arbitrary: last_end)
  case Nil
  then show ?case by (simp add: span_to_end)
next
  case (Cons w ws)
  then have m: "last_end \<le> start_ms w" "start_ms w \<le> end_ms w" "monotone_spans (end_ms w) ws"
    and nn: "0 \<le> start_ms w" "0 \<le> end_ms w"
    by auto
  note ih = Cons.IH [OF m(3) nn(2)]
  have gap: "(if last_end < start_ms w then span audio last_end (start_ms w) else []) = span audio last_end (start_ms w)"
    using m(1) by (auto simp: span_def)
  note g = length_span_rest [OF Cons.prems(2) m(1), of audio]
  note v = length_span_rest [OF nn(1) m(2), of audio]
  show ?case
  proof (cases "isToxic (word w)")
    case True
    with ih g v show ?thesis
      by (simp add: gap del: length_drop)
  next
    case False
    with ih g v show ?thesis
      by (simp add: gap del: length_drop)
  qed
qed

text \<open>C6, as amended: for word timings with monotone non-overlapping spans, the
  output is what the spec's algorithm builds, every gap, every non-toxic word's slice and
  the trailing audio taken from the input as they are and every toxic word's slice replaced
  by one tone. So the duration of the output is the duration of the input, minus the
  durations of the spans of the toxic words (each cut to the clip), plus one tone duration
  for each toxic word. It equals the duration of the input when every toxic word's span is
  exactly as long as the tone; when no word is toxic the output is the input itself. The
  claim as stated, equality whichever words are toxic, does not hold: the tone has a fixed
  duration.\<close>

theorem censor_audio_duration:
  assumes "toxic_pred clf isToxic" and "monotone_spans 0 ws" and "b \<noteq> []"
  shows "\<exists>out. fst (censor_audio (Some b) clf (WordTimings ws) audio s) = Inr (Some out) \<and>
     out = spec_word_timings audio b isToxic 0 ws \<and>
     length out +
       (\<Sum>w\<leftarrow>filter (\<lambda>w. isToxic (word w)) ws. length (span audio (start_ms w) (end_ms w))) =
     length audio + length b * length (filter (\<lambda>w. isToxic (word w)) ws) \<and>
     ((\<forall>w\<in>set ws. isToxic (word w) \<longrightarrow> length (span audio (start_ms w) (end_ms w)) = length b) \<longrightarrow>
        length out = length audio) \<and>
     ((\<forall>w\<in>set ws. \<not> isToxic (word w)) \<longrightarrow> out = audio)"
proof -
  let ?out = "spec_word_timings audio b isToxic 0 ws"
  let ?tox = "filter (\<lambda>w. isToxic (word w)) ws"
  have r: "fst (censor_audio (Some b) clf (WordTimings ws) audio s) = Inr (Some ?out)"
    using assms by (rule censor_audio_timings_spec)
  have len: "length ?out + (\<Sum>w\<leftarrow>?tox. length (span audio (start_ms w) (end_ms w))) =
     length audio + length b * length ?tox"
    using length_spec_word_timings [OF assms(2), of audio b isToxic] by simp
  have same: "length ?out = length audio"
    if h: "\<forall>w\<in>set ws. isToxic (word w) \<longrightarrow> length (span audio (start_ms w) (end_ms w)) = length b"
  proof -
    have "map (\<lambda>w. length (span audio (start_ms w) (end_ms w))) ?tox = map (\<lambda>w. length b) ?tox"
      using h by (intro map_cong) auto
    then have "(\<Sum>w\<leftarrow>?tox. length (span audio (start_ms w) (end_ms w))) = (\<Sum>w\<leftarrow>?tox. length b)"
      by (simp only:)
    also have "\<dots> = length b * length ?tox"
      by (simp add: sum_list_triv)
    finally show ?thesis using len by simp
  qed
  have verbatim: "?out = audio" if h: "\<forall>w\<in>set ws. \<not> isToxic (word w)"
    using spec_word_timings_none_toxic [OF assms(2) _ h, of audio b] by simp
  from r len same verbatim show ?thesis by blast
qed

text \<open>On the spec's example the output lasts 3000 - 1000 + 100 = 2100 ms, and with a
  classifier that always raises, so that no word is toxic, the output is the input.\<close>

theorem censor_audio_duration_witness:
  "(\<exists>out. fst (censor_audio (Some (replicate 100 (0::nat))) (Some ex_clf) (WordTimings ex_words)
                [0..<3000] 0) = Inr (Some out) \<and>
         length out = 2100) \<and>
   fst (censor_audio (Some (replicate 100 (0::nat))) (Some raising_clf) (WordTimings ex_words)
          [0..<3000] 0) = Inr (Some [0..<3000])"
proof -
  note m = monotone_ex_words
  have b: "replicate 100 (0::nat) \<noteq> []" by simp
  from censor_audio_duration [OF toxic_pred_ex_clf m b, of "[0..<3000]" 0]
  obtain out where
    o: "fst (censor_audio (Some (replicate 100 (0::nat))) (Some ex_clf) (WordTimings ex_words)
              [0..<3000] 0) = Inr (Some out)" and
    l: "length out +
        (\<Sum>w\<leftarrow>filter (\<lambda>w. word w = ''bad'') ex_words.
            length (span [0..<3000] (start_ms w) (end_ms w))) =
        length [0..<3000] +
        length (replicate 100 (0::nat)) * length (filter (\<lambda>w. word w = ''bad'') ex_words)"
    by blast
  from l have "length out = 2100"
    by (simp add: ex_words_def start_ms_def end_ms_def ms_whole_seconds span_def)
  with o have 1: "\<exists>out. fst (censor_audio (Some (replicate 100 (0::nat))) (Some ex_clf)
       (WordTimings ex_words) [0..<3000] 0) = Inr (Some out) \<and> length out = 2100"
    by blast
  have t: "toxic_pred (Some raising_clf) (\<lambda>w. False)"
    by (rule toxic_pred_raising) (simp add: raising_clf_def)
  from censor_audio_duration [OF t m b, of "[0..<3000]" 0]
  have 2: "fst (censor_audio (Some (replicate 100 (0::nat))) (Some raising_clf)
       (WordTimings ex_words) [0..<3000] 0) = Inr (Some [0..<3000])"
    by auto
  from 1 2 show ?thesis by (rule conjI)
qed

text \<open>The spec's own example refutes equal durations: a clip of 3000 ms, a tone of
  100 ms, the word \<^verbatim>\<open>bad\<close> at [0,1000) toxic. The output lasts 2100 ms.\<close>

theorem censor_audio_duration_counterexample:
  "fst (censor_audio (Some (replicate 100 (0::nat))) (Some ex_clf) (WordTimings ex_words)
          [0..<3000] 0) = Inr (Some (replicate 100 0 @ [1000..<2000] @ [2000..<3000])) \<and>
   length (replicate 100 (0::nat) @ [1000..<2000] @ [2000..<3000]) = 2100 \<and>
   length [0..<3000] = 3000 \<and>
   length (replicate 100 (0::nat) @ [1000..<2000] @ [2000..<3000]) \<noteq> length [0..<3000]"
proof -
  have b: "replicate 100 (0::nat) \<noteq> []" by simp
  from censor_audio_timings_spec [OF toxic_pred_ex_clf monotone_ex_words b, of "[0..<3000]" 0]
  show ?thesis
    by (simp add: ex_words_def start_ms_def end_ms_def ms_whole_seconds span_def
        del: upt_rec_numeral)
qed

subsection \<open>The plain-text loop\<close>









subsection \<open>A classifier that always raises\<close>

text \<open>With a classifier that raises on every call no word is toxic, and for word timings
  with monotone non-overlapping spans the output is the input.\<close>

lemma censor_audio_fail_open_timings:
  assumes "\<forall>w s. fst (f w s) = Raises" and "b \<noteq> []" and "monotone_spans 0 ws"
  shows "fst (censor_audio (Some b) (Some f) (WordTimings ws) audio s) = Inr (Some audio)"
proof -
  note t = toxic_pred_raising [OF assms(1)]
  have "spec_word_timings audio b (\<lambda>w. False) 0 ws = drop (nat 0) audio"
    by (rule spec_word_timings_none_toxic [OF assms(3)]) simp_all
  then show ?thesis
    using censor_audio_timings_spec [OF t assms(3) assms(2), of audio s] by simp
qed


subsection \<open>The toxicity decision\<close>

lemma strip_empty_iff: "strip w = [] \<longleftrightarrow> (\<forall>c\<in>set w. isspace c)"
proof
  assume "strip w = []"
  then have "dropWhile isspace (rev (dropWhile isspace w)) = []"
    by (simp add: strip_def)
  then have "\<forall>c\<in>set (dropWhile isspace w). isspace c"
    by (simp add: dropWhile_eq_Nil_conv)
  then have "dropWhile isspace w = []"
    using hd_dropWhile [of isspace w] hd_in_set [of "dropWhile isspace w"] by blast
  then show "\<forall>c\<in>set w. isspace c"
    by (simp add: dropWhile_eq_Nil_conv)
next
  assume "\<forall>c\<in>set w. isspace c"
  then have d: "dropWhile isspace w = []"
    by (simp add: dropWhile_eq_Nil_conv)
  show "strip w = []"
    unfolding strip_def d by simp
qed

text \<open>C3: \<^verbatim>\<open>is_toxic(word)\<close> returns true exactly when the word is not blank, the
  classifier is available, its call returns and the top prediction has the label
  \<^verbatim>\<open>Toxic\<close> with a score above 0.7. An unavailable classifier and a call that raises give
  false. A word of whitespace only (the empty word included) gives false and leaves the
  classifier's state as it was: the classifier is not consulted.\<close>

theorem is_toxic_decision:
  "(fst (is_toxic clf w s) \<longleftrightarrow>
      strip w \<noteq> [] \<and>
      (\<exists>f r rs. clf = Some f \<and> fst (f w s) = Returns (r # rs) \<and>
                 label r = ''Toxic'' \<and> 7 / 10 < score r)) \<and>
   (clf = None \<longrightarrow> is_toxic clf w s = (False, s)) \<and>
   (clf = Some g \<and> fst (g w s) = Raises \<longrightarrow> \<not> fst (is_toxic clf w s)) \<and>
   ((\<forall>c\<in>set w. isspace c) \<longrightarrow> is_toxic clf w s = (False, s))"
proof (intro conjI impI)
  show "fst (is_toxic clf w s) \<longleftrightarrow>
      strip w \<noteq> [] \<and>
      (\<exists>f r rs. clf = Some f \<and> fst (f w s) = Returns (r # rs) \<and>
                 label r = ''Toxic'' \<and> 7 / 10 < score r)"
  proof (cases clf)
    case None
    then show ?thesis by (simp add: is_toxic_def)
  next
    case (Some f)
    obtain out s' where o: "f w s = (out, s')" by (cases "f w s")
    show ?thesis
    proof (cases out)
      case Raises
      with Some o show ?thesis by (simp add: is_toxic_def)
    next
      case (Returns rs)
      with Some o show ?thesis
        by (cases rs) (simp_all add: is_toxic_def)
    qed
  qed
next
  assume "clf = None"
  then show "is_toxic clf w s = (False, s)" by (simp add: is_toxic_def)
next
  assume "clf = Some g \<and> fst (g w s) = Raises"
  then show "\<not> fst (is_toxic clf w s)"
    by (cases "g w s") (simp add: is_toxic_def)
next
  assume "\<forall>c\<in>set w. isspace c"
  then have "strip w = []" by (simp add: strip_empty_iff)
  then show "is_toxic clf w s = (False, s)" by (simp add: is_toxic_def)
qed

text \<open>On concrete words: \<^verbatim>\<open>bad\<close> is toxic and \<^verbatim>\<open>cat\<close> is not for \<open>ex_clf\<close>;
  no classifier, a raising classifier and a blank word give false.\<close>

theorem is_toxic_decision_witness:
  "fst (is_toxic (Some ex_clf) ''bad'' 0) \<and>
   \<not> fst (is_toxic (Some ex_clf) ''cat'' 0) \<and>
   is_toxic (None :: nat classifier option) ''bad'' 0 = (False, 0) \<and>
   \<not> fst (is_toxic (Some raising_clf) ''bad'' 0) \<and>
   is_toxic (Some ex_clf) '' '' 0 = (False, 0)"
proof -
  have s: "strip ''bad'' \<noteq> []" "strip ''cat'' \<noteq> []"
    by (simp_all add: strip_def isspace_def)
  have 1: "fst (is_toxic (Some ex_clf) ''bad'' 0)"
    using is_toxic_decision [of "Some ex_clf" "''bad''" 0, THEN conjunct1] s
    by (simp add: ex_clf_def)
  have 2: "\<not> fst (is_toxic (Some ex_clf) ''cat'' 0)"
    using is_toxic_decision [of "Some ex_clf" "''cat''" 0, THEN conjunct1] s
    by (simp add: ex_clf_def)
  have 3: "is_toxic (None :: nat classifier option) ''bad'' 0 = (False, 0)"
    using is_toxic_decision [of "None :: nat classifier option" "''bad''" 0]
    by simp
  have 4: "\<not> fst (is_toxic (Some raising_clf) ''bad'' 0)"
    using is_toxic_decision [of "Some raising_clf" "''bad''" 0 raising_clf]
    by (simp add: raising_clf_def)
  have 5: "is_toxic (Some ex_clf) '' '' 0 = (False, 0)"
    using is_toxic_decision [of "Some ex_clf" "'' ''" 0]
    by (simp add: isspace_def)
  from 1 2 3 4 5 show ?thesis by simp
qed

subsection \<open>Zero words, no tone, other transcriptions\<close>

text \<open>C2: what \<^verbatim>\<open>censor_audio\<close> does on a transcription with zero words, the tone being
  available. An empty word-timings list returns the input clip unchanged. A plain text
  with no words (the empty string, or whitespace only) raises \<^verbatim>\<open>ZeroDivisionError\<close>: the
  division \<^verbatim>\<open>len(audio) / len(words)\<close> is not guarded.\<close>

theorem censor_audio_zero_words:
  "fst (censor_audio (Some (x # xs)) clf (WordTimings []) audio s) = Inr (Some audio) \<and>
   fst (censor_audio (Some (x # xs)) clf (PlainText '''') audio s) = Inl ZeroDivisionError \<and>
   fst (censor_audio (Some (x # xs)) clf (PlainText ''   '') audio s) = Inl ZeroDivisionError"
proof -
  have "getitem_slice audio 0 (int (length audio)) = audio"
    by (simp add: getitem_slice_span span_def)
  then show ?thesis
    by (simp add: censor_audio_def str_split_def isspace_def)
qed

text \<open>C5: when the tone segment is unavailable, \<^verbatim>\<open>censor_audio\<close> returns \<^verbatim>\<open>None\<close>, whatever
  the transcription and the audio are, and the classifier is not called.\<close>

theorem censor_audio_no_tone:
  "censor_audio None clf words_info audio s = (Inr None, s)"
  by (simp add: censor_audio_def)

text \<open>C10: with the tone available, a transcription that is neither a word-timings list
  nor a string gives the empty clip: not the input audio, not \<^verbatim>\<open>None\<close> and no exception;
  the classifier is not called.\<close>

theorem censor_audio_other:
  assumes "b \<noteq> []"
  shows "censor_audio (Some b) clf Other audio s = (Inr (Some []), s)"
  using assms by (simp add: censor_audio_def)

text \<open>On a clip of three samples.\<close>

theorem censor_audio_other_witness:
  "censor_audio (Some [9::nat]) (Some ex_clf) Other [1, 2, 3] 0 = (Inr (Some []), 0)"
proof -
  have "[9::nat] \<noteq> []" by simp
  then show ?thesis by (rule censor_audio_other)
qed

subsection \<open>Determinism\<close>

lemma is_toxic_deterministic:
  assumes "deterministic_predicate clf"
  shows "fst (is_toxic clf w s) = fst (is_toxic clf w s')"
  using assms by (simp add: deterministic_predicate_def)

lemma timings_loop_deterministic:
  assumes "deterministic_predicate clf"
  shows "fst (timings_loop audio b clf ws (censored, last_end, s)) =
           fst (timings_loop audio b clf ws (censored, last_end, s')) \<and>
         fst (snd (timings_loop audio b clf ws (censored, last_end, s))) =
           fst (snd (timings_loop audio b clf ws (censored, last_end, s')))"
proof (induction ws arbitrary: censored last_end s s')
  case Nil
  show ?case by simp
next
  case (Cons w ws)
  have t: "fst (is_toxic clf (word w) s) = fst (is_toxic clf (word w) s')"
    using assms by (rule is_toxic_deterministic)
  show ?case
    using Cons.IH [of _ _ "snd (is_toxic clf (word w) s)" "snd (is_toxic clf (word w) s')"]
    by (simp add: Let_def split_beta t)
qed

lemma text_loop_deterministic:
  assumes "deterministic_predicate clf"
  shows "fst (text_loop audio b clf d iws (censored, s)) =
         fst (text_loop audio b clf d iws (censored, s'))"
proof (induction iws arbitrary: censored s s')
  case Nil
  show ?case by simp
next
  case (Cons iw iws)
  obtain i w where iw: "iw = (i, w)" by (cases iw)
  have t: "fst (is_toxic clf w s) = fst (is_toxic clf w s')"
    using assms by (rule is_toxic_deterministic)
  show ?case
    using Cons.IH [of _ "snd (is_toxic clf w s)" "snd (is_toxic clf w s')"]
    by (simp add: iw Let_def split_beta t)
qed

text \<open>C9: with a deterministic toxicity predicate, the value \<^verbatim>\<open>censor_audio\<close> returns (or
  the exception it raises) is the same from any two states of the classifier service, for
  the same transcription, audio clip and tone; in particular a second run, started in the
  state the first run left behind, gives the same result as the first. The function reads
  the tone and the classifier, assigns neither, and keeps nothing between calls: the
  service's state is the only state a run can change.\<close>

theorem censor_audio_deterministic:
  assumes "deterministic_predicate clf"
  shows "fst (censor_audio beep clf words_info audio s) =
         fst (censor_audio beep clf words_info audio s') \<and>
         fst (censor_audio beep clf words_info audio (snd (censor_audio beep clf words_info audio s))) =
         fst (censor_audio beep clf words_info audio s)"
proof -
  have run: "fst (censor_audio beep clf words_info audio s1) =
             fst (censor_audio beep clf words_info audio s2)" for s1 s2
  proof (cases beep)
    case None
    then show ?thesis by (simp add: censor_audio_def)
  next
    case (Some b)
    show ?thesis
    proof (cases "b = []")
      case True
      with Some show ?thesis by (simp add: censor_audio_def)
    next
      case False
      show ?thesis
      proof (cases words_info)
        case (WordTimings ws)
        show ?thesis
          using timings_loop_deterministic [OF assms, of audio b ws "[]" 0 s1 s2]
          by (simp add: censor_audio_def WordTimings Some False split_beta)
      next
        case (PlainText transcript)
        show ?thesis
          using text_loop_deterministic [OF assms, of audio b _ _ "[]" s1 s2]
          by (simp add: censor_audio_def PlainText Some False split_beta Let_def)
      next
        case Other
        show ?thesis
          by (simp add: censor_audio_def Other Some False)
      qed
    qed
  qed
  show ?thesis
    using run [of s s'] run [of "snd (censor_audio beep clf words_info audio s)" s] by simp
qed

lemma deterministic_predicate_jitter_clf: "deterministic_predicate (Some jitter_clf)"
  by (simp add: deterministic_predicate_def is_toxic_def jitter_clf_def)

text \<open>The replies of \<open>jitter_clf\<close> depend on its state (the score of \<^verbatim>\<open>bad\<close> is 0.9 at
  call count 0 and 0.8 at call count 1), its toxicity predicate does not, and the
  output is the same from call count 0 and from call count 5.\<close>

theorem censor_audio_deterministic_witness:
  "deterministic_predicate (Some jitter_clf) \<and>
   fst (jitter_clf ''bad'' 0) \<noteq> fst (jitter_clf ''bad'' 1) \<and>
   fst (censor_audio (Some [100, 101::nat]) (Some jitter_clf) (WordTimings gap_words) [0..<7] 0) =
   fst (censor_audio (Some [100, 101::nat]) (Some jitter_clf) (WordTimings gap_words) [0..<7] 5)"
proof -
  have j: "fst (jitter_clf ''bad'' 0) \<noteq> fst (jitter_clf ''bad'' 1)"
    by (simp add: jitter_clf_def)
  from censor_audio_deterministic [OF deterministic_predicate_jitter_clf,
      of "Some [100, 101::nat]" "WordTimings gap_words" "[0..<7]" 0 5]
    deterministic_predicate_jitter_clf j
  show ?thesis by simp
qed

end
